theory Spec2Isabelle
  imports Main
begin

section \<open>JavaScript values and arrays\<close>

text \<open>
  The addon works on Ember arrays held by reference. An array is named by a reference
  (a natural number) and its contents live in a store. The elements that the merging and
  joining code inspects are primitive JavaScript values; numbers are the integral ones
  (no NaN, so strict equality \<open>===\<close> is equality of the values).
\<close>

type_synonym ref = nat

datatype jsval = Undefined | Null | JBool bool | JNum int | JStr string

text \<open>ToBoolean: what \<open>!x\<close>, \<open>x || y\<close> and \<open>x && y\<close> test.\<close>

fun truthy :: "jsval \<Rightarrow> bool" where
  "truthy Undefined = False"
| "truthy Null = False"
| "truthy (JBool b) = b"
| "truthy (JNum n) = (n \<noteq> 0)"
| "truthy (JStr s) = (s \<noteq> [])"

type_synonym store = "ref \<Rightarrow> jsval list"

text \<open>
  \<open>Array.prototype.find\<close> returns the first element the callback accepts, or
  \<open>undefined\<close>: the element itself, not a boolean.
\<close>

definition find_js :: "(jsval \<Rightarrow> bool) \<Rightarrow> jsval list \<Rightarrow> jsval" where
  "find_js p xs = (case List.find p xs of None \<Rightarrow> Undefined | Some x \<Rightarrow> x)"

text \<open>
  \<open>pushObject\<close> appends; \<open>removeObject\<close> removes every occurrence of the object
  (compared with \<open>===\<close>). Both mutate the array in place.
\<close>

definition pushObject :: "ref \<Rightarrow> jsval \<Rightarrow> store \<Rightarrow> store" where
  "pushObject r x h = h(r := h r @ [x])"

definition removeObject :: "ref \<Rightarrow> jsval \<Rightarrow> store \<Rightarrow> store" where
  "removeObject r x h = h(r := filter (\<lambda>y. y \<noteq> x) (h r))"

text \<open>
  \<open>Array.prototype.forEach\<close> fixes the number of indices it visits before the first
  call, then reads the array as it is at each index: an index that is no longer in the
  array is passed over, and an element that has moved to an index already visited is
  never seen. \<open>forEach_from n k\<close> visits the \<open>n\<close> indices from \<open>k\<close> on.
\<close>

fun forEach_from :: "nat \<Rightarrow> nat \<Rightarrow> ref \<Rightarrow> (jsval \<Rightarrow> store \<Rightarrow> store) \<Rightarrow> store \<Rightarrow> store" where
  "forEach_from 0 k r f h = h"
| "forEach_from (Suc n) k r f h =
     forEach_from n (Suc k) r f (if k < length (h r) then f (h r ! k) h else h)"

definition forEach :: "ref \<Rightarrow> (jsval \<Rightarrow> store \<Rightarrow> store) \<Rightarrow> store \<Rightarrow> store" where
  "forEach r f h = forEach_from (length (h r)) 0 r f h"

section \<open>mergeArrays\<close>

text \<open>
  \<^verbatim>\<open>
  export function mergeArrays(original, update, comparator) {
    comparator = comparator || function(a, b) { return a === b; };
    update.forEach((item) => {
      if (!original.find(comparator.bind(this, item))) {
        original.pushObject(item);
      }
    });
    original.forEach((item) => {
      if (!update.find(comparator.bind(this, item))) {
        original.removeObject(item);
      }
    });
    return original;
  }
  \<close>
  The comparator is given by the truth value of what it returns. Both loops run over the
  live arrays, and \<open>original\<close> and \<open>update\<close> may be the same array.
\<close>

definition push_missing :: "(jsval \<Rightarrow> jsval \<Rightarrow> bool) \<Rightarrow> ref \<Rightarrow> jsval \<Rightarrow> store \<Rightarrow> store" where
  "push_missing cmp original item h =
     (if \<not> truthy (find_js (cmp item) (h original)) then pushObject original item h else h)"

definition remove_stale :: "(jsval \<Rightarrow> jsval \<Rightarrow> bool) \<Rightarrow> ref \<Rightarrow> ref \<Rightarrow> jsval \<Rightarrow> store \<Rightarrow> store" where
  "remove_stale cmp original update item h =
     (if \<not> truthy (find_js (cmp item) (h update)) then removeObject original item h else h)"

definition mergeArrays :: "ref \<Rightarrow> ref \<Rightarrow> (jsval \<Rightarrow> jsval \<Rightarrow> bool) option \<Rightarrow> store \<Rightarrow> ref \<times> store" where
  "mergeArrays original update comparator h =
     (let cmp = (case comparator of Some c \<Rightarrow> c | None \<Rightarrow> (\<lambda>a b. a = b));
          h1 = forEach update (push_missing cmp original) h;
          h2 = forEach original (remove_stale cmp original update) h1
      in (original, h2))"

section \<open>Strings: join and split\<close>

text \<open>
  \<open>Array.prototype.join\<close> writes \<open>undefined\<close> and \<open>null\<close> as the empty string and
  every other element by ToString; an integral number (below \<open>10^21\<close>) is written as its
  decimal numeral.
\<close>

definition digit_char :: "nat \<Rightarrow> char" where
  "digit_char d = char_of (48 + d)"

function show_nat :: "nat \<Rightarrow> string" where
  "show_nat n = (if n < 10 then [digit_char n] else show_nat (n div 10) @ [digit_char (n mod 10)])"
  by pat_completeness auto
termination
  by (relation "measure id") auto

fun elem_str :: "jsval \<Rightarrow> string" where
  "elem_str Undefined = []"
| "elem_str Null = []"
| "elem_str (JBool b) = (if b then ''true'' else ''false'')"
| "elem_str (JNum n) = (if n < 0 then CHR ''-'' # show_nat (nat (- n)) else show_nat (nat n))"
| "elem_str (JStr s) = s"

fun join_strs :: "string \<Rightarrow> string list \<Rightarrow> string" where
  "join_strs sep [] = []"
| "join_strs sep [x] = x"
| "join_strs sep (x # y # ys) = x @ sep @ join_strs sep (y # ys)"

definition join_js :: "string \<Rightarrow> jsval list \<Rightarrow> string" where
  "join_js sep xs = join_strs sep (map elem_str xs)"

text \<open>
  \<open>String.prototype.split\<close> with a string separator: the pieces between the
  occurrences of the separator, found from the left; with the empty separator, the
  characters. \<open>split_from sep acc s\<close> has read \<open>acc\<close> of the current piece.
\<close>

fun split_from :: "string \<Rightarrow> string \<Rightarrow> string \<Rightarrow> string list" where
  "split_from sep acc [] = [acc]"
| "split_from sep acc (c # cs) =
     (if sep \<noteq> [] \<and> take (length sep) (c # cs) = sep
      then acc # split_from sep [] (drop (length sep) (c # cs))
      else split_from sep (acc @ [c]) cs)"

definition split_js :: "string \<Rightarrow> string \<Rightarrow> string list" where
  "split_js sep s = (if sep = [] then map (\<lambda>c. [c]) s else split_from sep [] s)"

section \<open>Owner instances and their properties\<close>

text \<open>
  A property of an owner instance holds an array (by reference) or a primitive value.
  \<open>Ember.isNone\<close> accepts \<open>null\<close> and \<open>undefined\<close>; \<open>Ember.isArray\<close> accepts the
  arrays; \<open>Ember.assert\<close> raises when its condition is false (as in a development
  build).
\<close>

type_synonym owner = nat

datatype anyval = Arr ref | Prim jsval

datatype error = AssertionFailed | TypeError

fun truthy_any :: "anyval \<Rightarrow> bool" where
  "truthy_any (Arr r) = True"
| "truthy_any (Prim v) = truthy v"

fun isNone :: "anyval \<Rightarrow> bool" where
  "isNone (Prim Undefined) = True"
| "isNone (Prim Null) = True"
| "isNone v = False"

fun isArray :: "anyval \<Rightarrow> bool" where
  "isArray (Arr r) = True"
| "isArray (Prim v) = False"

fun isString :: "anyval \<Rightarrow> bool" where
  "isString (Prim (JStr s)) = True"
| "isString v = False"

record heap =
  arrays :: store
  fresh :: ref
  slot :: "owner \<Rightarrow> anyval"

text \<open>
  \<open>slot h this\<close> is \<open>this.get(dependentArrayKey)\<close>. An array literal or the result of
  \<open>split\<close> is a new array, at the next unused reference.
\<close>

definition alloc :: "jsval list \<Rightarrow> heap \<Rightarrow> anyval \<times> heap" where
  "alloc xs h = (Arr (fresh h), h\<lparr>arrays := (arrays h)(fresh h := xs), fresh := Suc (fresh h)\<rparr>)"

type_synonym merge_fn = "owner \<Rightarrow> anyval \<Rightarrow> anyval \<Rightarrow> heap \<Rightarrow> (error + anyval) \<times> heap"

text \<open>
  \<open>mergeArrays\<close> called on arbitrary values: a value that is not an array has no
  \<open>forEach\<close> or \<open>find\<close>, so the call raises a TypeError before anything is changed.
\<close>

definition mergeArrays_any :: "anyval \<Rightarrow> anyval \<Rightarrow> store \<Rightarrow> (error + anyval) \<times> store" where
  "mergeArrays_any original update s =
     (case (original, update) of
        (Arr ro, Arr ru) \<Rightarrow> (let (r, s') = mergeArrays ro ru None s in (Inr (Arr r), s'))
      | _ \<Rightarrow> (Inl TypeError, s))"

text \<open>The default merge function called as \<open>mergeFn.call(this, oldItems, newItems)\<close>.\<close>

definition default_merge :: merge_fn where
  "default_merge this original update h =
     (let (res, s) = mergeArrays_any original update (arrays h) in (res, h\<lparr>arrays := s\<rparr>))"

section \<open>joinedArray\<close>

text \<open>
  \<^verbatim>\<open>
  export function joinedArray(dependentArrayKey, separator, mergeFn) {
    let defaultValue;
    mergeFn = mergeFn || mergeArrays;
    return computed(dependentArrayKey + '.[]', {
      get() {
        if (!defaultValue) {
          defaultValue = this.get(dependentArrayKey) || [];
        }
        let value = this.get(dependentArrayKey);
        assert(..., Ember.isNone(value) || Ember.isArray(value));
        return value && value.join(separator);
      },
      set(key, value) {
        assert(..., Ember.isNone(value) || Ember.typeOf(value) === 'string');
        if (!defaultValue) {
          defaultValue = this.get(dependentArrayKey) || [];
        }
        let newItems;
        let oldItems = this.get(dependentArrayKey);
        if (typeof value === 'string') {
          if (Ember.isEmpty(value)) { newItems = []; }
          else { newItems = value.split(separator); }
        } else {
          newItems = defaultValue;
        }
        let result = mergeFn.call(this, oldItems, newItems);
        return result.join(separator);
      }
    });
  }
  \<close>
  \<open>defaultValue\<close> is a variable of the macro's closure: one per property definition,
  shared by every instance of the class. A raised error keeps the assignments made
  before it, so each operation returns its outcome and the state.
\<close>

record joined =
  defaultValue :: "anyval option"
  world :: heap

definition cache_default :: "owner \<Rightarrow> joined \<Rightarrow> joined" where
  "cache_default this st =
     (if (case defaultValue st of None \<Rightarrow> True | Some d \<Rightarrow> \<not> truthy_any d)
      then (if truthy_any (slot (world st) this)
            then st\<lparr>defaultValue := Some (slot (world st) this)\<rparr>
            else (let (a, h) = alloc [] (world st) in st\<lparr>defaultValue := Some a, world := h\<rparr>))
      else st)"

definition joinedArray_get :: "string \<Rightarrow> owner \<Rightarrow> joined \<Rightarrow> (error + jsval) \<times> joined" where
  "joinedArray_get separator this st =
     (let st1 = cache_default this st;
          v = slot (world st1) this
      in if \<not> (isNone v \<or> isArray v) then (Inl AssertionFailed, st1)
         else (case v of
                 Arr r \<Rightarrow> (Inr (JStr (join_js separator (arrays (world st1) r))), st1)
               | Prim p \<Rightarrow> (Inr p, st1)))"

text \<open>Lines 223 to 242 of the setter: everything up to the call of the merge function.\<close>

definition set_merge :: "string \<Rightarrow> merge_fn option \<Rightarrow> owner \<Rightarrow> anyval \<Rightarrow> joined \<Rightarrow> (error + anyval) \<times> joined" where
  "set_merge separator mergeFn this v st =
     (if \<not> (isNone v \<or> isString v) then (Inl AssertionFailed, st)
      else
        (let st1 = cache_default this st;
             oldItems = slot (world st1) this;
             (newItems, h2) =
               (case v of
                  Prim (JStr s) \<Rightarrow>
                    (if s = [] then alloc [] (world st1)
                     else alloc (map JStr (split_js separator s)) (world st1))
                | _ \<Rightarrow>
                    ((case defaultValue st1 of Some d \<Rightarrow> d | None \<Rightarrow> Prim Undefined), world st1));
             (res, h3) = (case mergeFn of Some m \<Rightarrow> m | None \<Rightarrow> default_merge) this oldItems newItems h2
         in (res, st1\<lparr>world := h3\<rparr>)))"

text \<open>Line 243: \<open>result.join(separator)\<close>; only an array has \<open>join\<close>.\<close>

definition joinedArray_set :: "string \<Rightarrow> merge_fn option \<Rightarrow> owner \<Rightarrow> anyval \<Rightarrow> joined \<Rightarrow> (error + string) \<times> joined" where
  "joinedArray_set separator mergeFn this v st =
     (case set_merge separator mergeFn this v st of
        (Inl e, st') \<Rightarrow> (Inl e, st')
      | (Inr (Arr r), st') \<Rightarrow> (Inr (join_js separator (arrays (world st') r)), st')
      | (Inr (Prim p), st') \<Rightarrow> (Inl TypeError, st'))"

text \<open>A get or a set of the joined view on some instance, and a sequence of them.\<close>

datatype jop = Get owner | Set owner anyval

definition joined_step :: "string \<Rightarrow> merge_fn option \<Rightarrow> jop \<Rightarrow> joined \<Rightarrow> joined" where
  "joined_step separator mergeFn op st =
     (case op of
        Get this \<Rightarrow> snd (joinedArray_get separator this st)
      | Set this v \<Rightarrow> snd (joinedArray_set separator mergeFn this v st))"

definition joined_run :: "string \<Rightarrow> merge_fn option \<Rightarrow> jop list \<Rightarrow> joined \<Rightarrow> joined" where
  "joined_run separator mergeFn ops st = foldl (\<lambda>s op. joined_step separator mergeFn op s) st ops"

section \<open>instanceScoped and mergedArray\<close>

text \<open>
  \<^verbatim>\<open>
  function instanceScoped(key, computedPropertyFactory) {
    return on('init', function() {
      Ember.defineProperty(this, key, computedPropertyFactory());
    });
  }
  export function mergedArray(key, mergeFn) {
    mergeFn = mergeFn || mergeArrays;
    return instanceScoped(key, function() {
      let source = Ember.A();
      return computed({
        get() { return source; },
        set(key, update) { return mergeFn(source, update); }
      });
    });
  }
  \<close>
  The computed property that the factory returns is a closure over \<open>source\<close>; it is
  given by the array it captured. \<open>source st this\<close> is the property defined on the
  instance \<open>this\<close>, if its init hook has run.
\<close>

record mstate =
  m_arrays :: store
  m_fresh :: ref
  source :: "owner \<rightharpoonup> ref"

definition mergedArray_factory :: "mstate \<Rightarrow> ref \<times> mstate" where
  "mergedArray_factory st =
     (m_fresh st, st\<lparr>m_arrays := (m_arrays st)(m_fresh st := []), m_fresh := Suc (m_fresh st)\<rparr>)"

definition instanceScoped :: "(mstate \<Rightarrow> ref \<times> mstate) \<Rightarrow> owner \<Rightarrow> mstate \<Rightarrow> mstate" where
  "instanceScoped computedPropertyFactory this st =
     (let (cp, st1) = computedPropertyFactory st in st1\<lparr>source := (source st1)(this \<mapsto> cp)\<rparr>)"

definition mergedArray_init :: "owner \<Rightarrow> mstate \<Rightarrow> mstate" where
  "mergedArray_init this st = instanceScoped mergedArray_factory this st"

definition mergedArray_get :: "owner \<Rightarrow> mstate \<Rightarrow> anyval" where
  "mergedArray_get this st = (case source st this of None \<Rightarrow> Prim Undefined | Some r \<Rightarrow> Arr r)"

text \<open>
  Before the init hook of an instance has run there is no computed property on it, and
  a set does not reach the macro's code.
\<close>

definition mergedArray_set ::
  "(anyval \<Rightarrow> anyval \<Rightarrow> store \<Rightarrow> (error + anyval) \<times> store) option \<Rightarrow> owner \<Rightarrow> anyval \<Rightarrow> mstate
     \<Rightarrow> (error + anyval) \<times> mstate" where
  "mergedArray_set mergeFn this update st =
     (case source st this of
        None \<Rightarrow> (Inr update, st)
      | Some r \<Rightarrow>
          (let (res, s) = (case mergeFn of Some m \<Rightarrow> m | None \<Rightarrow> mergeArrays_any) (Arr r) update (m_arrays st)
           in (res, st\<lparr>m_arrays := s\<rparr>)))"

datatype mop = Init owner | MGet owner | MSet owner anyval

definition merged_step :: "mop \<Rightarrow> mstate \<Rightarrow> mstate" where
  "merged_step op st =
     (case op of
        Init this \<Rightarrow> mergedArray_init this st
      | MGet this \<Rightarrow> st
      | MSet this update \<Rightarrow> snd (mergedArray_set None this update st))"

definition merged_run :: "mop list \<Rightarrow> mstate \<Rightarrow> mstate" where
  "merged_run ops st = foldl (\<lambda>s op. merged_step op s) st ops"

section \<open>arrayMemberObserver\<close>

text \<open>
  The user's \<open>added\<close> and \<open>removed\<close> callbacks are given by the calls made to them,
  in order: the item and the index argument, if one is passed. The callbacks are taken
  not to change the observed array or the dependent key themselves.
\<close>

datatype 'a event = Added 'a "nat option" | Removed 'a "nat option"

text \<open>
  The array observers are the host's (Ember's \<open>addArrayObserver(target, opts)\<close> and
  \<open>removeArrayObserver(target, opts)\<close>, which are not code of this repository); they
  are given here by their documented contract. The first registers the observer object
  \<open>target\<close> on the array; the second removes the registration of that same object, if
  there is one, so a call without a target (\<open>None\<close>) names no registered object. Every
  object literal is a new object, named by the next unused number. \<open>dependent\<close> is
  \<open>this.get(dependentArrayKey)\<close>: an array, or \<open>None\<close> for a value that is not an
  array. The arrays are native arrays, which \<open>Ember.isArray\<close> (line 86) and
  \<open>Array.isArray\<close> (line 94) both accept; an array-like object that only the first
  accepts is not among the values.
\<close>

record 'a oworld =
  contents :: "ref \<Rightarrow> 'a list"
  dependent :: "ref option"
  previousArray :: "ref option"
  hooks :: "(ref \<times> nat) list"
  next_hook :: nat
  key_observed :: bool

definition addArrayObserver :: "ref \<Rightarrow> 'a oworld \<Rightarrow> 'a oworld" where
  "addArrayObserver r w = w\<lparr>hooks := hooks w @ [(r, next_hook w)], next_hook := Suc (next_hook w)\<rparr>"

definition removeArrayObserver :: "ref \<Rightarrow> nat option \<Rightarrow> 'a oworld \<Rightarrow> 'a oworld" where
  "removeArrayObserver r target w =
     w\<lparr>hooks := filter (\<lambda>(a, t). \<not> (a = r \<and> Some t = target)) (hooks w)\<rparr>"

definition watched :: "'a oworld \<Rightarrow> ref set" where
  "watched w = fst ` set (hooks w)"

text \<open>\<open>Array.prototype.slice(begin, end)\<close> for indices that are not negative.\<close>

definition slice_js :: "nat \<Rightarrow> nat \<Rightarrow> 'a list \<Rightarrow> 'a list" where
  "slice_js b e xs = take (e - b) (drop b xs)"

text \<open>
  \<^verbatim>\<open>
  arrayWillChange: (array, start, removedCount) => {
    if (removedCount > 0 && observers.removed) {
      array.slice(start, start + removedCount).forEach((item, i) => {
        observers.removed.call(this, item, i + start);
      });
    }
  },
  arrayDidChange: (array, start, removedCount, addedCount) => {
    if (addedCount > 0 && observers.added) {
      array.slice(start, start + addedCount).forEach((item, i) => {
        observers.added.call(this, item, i + start);
      });
    }
  }
  \<close>
  \<open>has_removed\<close> says whether \<open>observers.removed\<close> was supplied; \<open>observers.added\<close> is
  always supplied (the macro calls it unguarded when it attaches).
\<close>

definition arrayWillChange :: "bool \<Rightarrow> 'a list \<Rightarrow> nat \<Rightarrow> nat \<Rightarrow> nat \<Rightarrow> 'a event list" where
  "arrayWillChange has_removed array start removedCount addedCount =
     (if removedCount > 0 \<and> has_removed
      then map (\<lambda>(i, item). Removed item (Some (i + start)))
             (enumerate 0 (slice_js start (start + removedCount) array))
      else [])"

definition arrayDidChange :: "'a list \<Rightarrow> nat \<Rightarrow> nat \<Rightarrow> nat \<Rightarrow> 'a event list" where
  "arrayDidChange array start removedCount addedCount =
     (if addedCount > 0
      then map (\<lambda>(i, item). Added item (Some (i + start)))
             (enumerate 0 (slice_js start (start + addedCount) array))
      else [])"

text \<open>
  A content mutation of an array is the host's \<open>replace(start, removeAmt, objects)\<close>:
  every observer registered on the array gets
  \<open>arrayWillChange(array, start, removeAmt, addAmt)\<close> on the array as it is, the
  elements are replaced, and every observer gets
  \<open>arrayDidChange(array, start, removeAmt, addAmt)\<close> on the array as it has become.
\<close>

definition splice :: "nat \<Rightarrow> nat \<Rightarrow> 'a list \<Rightarrow> 'a list \<Rightarrow> 'a list" where
  "splice start removeAmt objects xs = take start xs @ objects @ drop (start + removeAmt) xs"

definition array_replace ::
  "('a list \<Rightarrow> nat \<Rightarrow> nat \<Rightarrow> nat \<Rightarrow> 'a event list) \<Rightarrow> ('a list \<Rightarrow> nat \<Rightarrow> nat \<Rightarrow> nat \<Rightarrow> 'a event list)
     \<Rightarrow> ref \<Rightarrow> nat \<Rightarrow> nat \<Rightarrow> 'a list \<Rightarrow> 'a oworld \<Rightarrow> 'a event list \<times> 'a oworld" where
  "array_replace willChange didChange r start removeAmt objects w =
     (let hs = filter (\<lambda>(a, t). a = r) (hooks w);
          old = contents w r;
          new = splice start removeAmt objects old;
          ev1 = concat (map (\<lambda>h. willChange old start removeAmt (length objects)) hs);
          ev2 = concat (map (\<lambda>h. didChange new start removeAmt (length objects)) hs)
      in (ev1 @ ev2, w\<lparr>contents := (contents w)(r := new)\<rparr>))"

text \<open>
  \<^verbatim>\<open>
  let previousArray;
  let observeDependentArray = () => {
    if (Array.isArray(this.get(dependentArrayKey))) {
      if (previousArray) {
        previousArray.removeArrayObserver();
        if (observers.removed) {
          previousArray.map(observers.removed.bind(this));
        }
      }
      previousArray = this.get(dependentArrayKey);
      this.get(dependentArrayKey).forEach((member) => {
        observers.added.call(this, member);
      });
      this.get(dependentArrayKey).addArrayObserver({ arrayWillChange: ..., arrayDidChange: ... });
    }
  };
  \<close>
  \<open>removeArrayObserver\<close> is called with no argument, \<open>map\<close> passes the item and its
  index, and the \<open>forEach\<close> callback passes the member alone.
\<close>

definition observeDependentArray :: "bool \<Rightarrow> 'a oworld \<Rightarrow> 'a event list \<times> 'a oworld" where
  "observeDependentArray has_removed w =
     (case dependent w of
        None \<Rightarrow> ([], w)
      | Some r \<Rightarrow>
          (let (ev1, w1) =
                 (case previousArray w of
                    None \<Rightarrow> ([], w)
                  | Some p \<Rightarrow>
                      ((if has_removed
                        then map (\<lambda>(i, item). Removed item (Some i)) (enumerate 0 (contents w p))
                        else []),
                       removeArrayObserver p None w));
               w2 = w1\<lparr>previousArray := Some r\<rparr>;
               ev2 = map (\<lambda>member. Added member None) (contents w2 r);
               w3 = addArrayObserver r w2
           in (ev1 @ ev2, w3)))"

text \<open>
  The init hook: the assertion, the first \<open>observeDependentArray()\<close>, and
  \<open>this.addObserver(dependentArrayKey, observeDependentArray)\<close>.
\<close>

definition arrayMemberObserver :: "bool \<Rightarrow> 'a oworld \<Rightarrow> error + 'a event list \<times> 'a oworld" where
  "arrayMemberObserver has_removed w =
     (case dependent w of
        None \<Rightarrow> Inl AssertionFailed
      | Some r \<Rightarrow>
          (let (ev, w1) = observeDependentArray has_removed w
           in Inr (ev, w1\<lparr>key_observed := True\<rparr>)))"

text \<open>
  Assigning the dependent key: the host notifies the key's observers when the value
  changes.
\<close>

definition set_dependent :: "bool \<Rightarrow> ref option \<Rightarrow> 'a oworld \<Rightarrow> 'a event list \<times> 'a oworld" where
  "set_dependent has_removed v w =
     (if v = dependent w then ([], w)
      else (let w1 = w\<lparr>dependent := v\<rparr>
            in if key_observed w1 then observeDependentArray has_removed w1 else ([], w1)))"

text \<open>
  The same code call by call: every call of a callback together with the state it is
  made in, in the order of the source. In \<open>observeDependentArray\<close> the calls of
  \<open>removed\<close> come after \<open>removeArrayObserver()\<close>, and the calls of \<open>added\<close> after
  the assignment to \<open>previousArray\<close> and before \<open>addArrayObserver\<close>.
\<close>

definition observeDependentArray_calls :: "bool \<Rightarrow> 'a oworld \<Rightarrow> ('a event \<times> 'a oworld) list" where
  "observeDependentArray_calls has_removed w =
     (case dependent w of
        None \<Rightarrow> []
      | Some r \<Rightarrow>
          (let (c1, w1) =
                 (case previousArray w of
                    None \<Rightarrow> ([], w)
                  | Some p \<Rightarrow>
                      (let w0 = removeArrayObserver p None w
                       in ((if has_removed
                            then map (\<lambda>(i, item). (Removed item (Some i), w0)) (enumerate 0 (contents w0 p))
                            else []),
                           w0)));
               w2 = w1\<lparr>previousArray := Some r\<rparr>;
               c2 = map (\<lambda>member. (Added member None, w2)) (contents w2 r)
           in c1 @ c2))"

definition arrayMemberObserver_calls :: "bool \<Rightarrow> 'a oworld \<Rightarrow> error + ('a event \<times> 'a oworld) list" where
  "arrayMemberObserver_calls has_removed w =
     (case dependent w of
        None \<Rightarrow> Inl AssertionFailed
      | Some r \<Rightarrow> Inr (observeDependentArray_calls has_removed w))"

subsection \<open>The second variant\<close>

text \<open>
  \<^verbatim>\<open>
  export function arrayMemberObserver(dependentArrayKey, observers) {
    return observer(dependentArrayKey + '.[]', on('init', function() {
      this.get(dependentArrayKey).forEach((member) => {
        observers.added.call(this, member);
      });
      this.get(dependentArrayKey).addArrayObserver({
        arrayWillChange(array, start, addedCount, removedCount) {
          array.slice(start, removedCount).forEach(observers.removed.bind(this));
        },
        arrayDidChange(array, start, addedCount) {
          array.slice(start, addedCount).forEach(observers.added.bind(this));
        }
      });
    }));
  }
  \<close>
  The host runs this function in the init hook and again whenever
  \<open>dependentArrayKey.[]\<close> changes; \<open>arrayMemberObserver2\<close> is one run of it. The
  parameters of the array observer keep the names the source gives them; the host passes
  the start, the number removed and the number added, in that order. \<open>forEach\<close> passes
  the item and its index in the slice. Both callbacks are taken to be supplied.
\<close>

definition arrayWillChange2 :: "'a list \<Rightarrow> nat \<Rightarrow> nat \<Rightarrow> nat \<Rightarrow> 'a event list" where
  "arrayWillChange2 array start addedCount removedCount =
     map (\<lambda>(i, item). Removed item (Some i)) (enumerate 0 (slice_js start removedCount array))"

definition arrayDidChange2 :: "'a list \<Rightarrow> nat \<Rightarrow> nat \<Rightarrow> nat \<Rightarrow> 'a event list" where
  "arrayDidChange2 array start addedCount unused =
     map (\<lambda>(i, item). Added item (Some i)) (enumerate 0 (slice_js start addedCount array))"

definition arrayMemberObserver2 :: "'a oworld \<Rightarrow> error + 'a event list \<times> 'a oworld" where
  "arrayMemberObserver2 w =
     (case dependent w of
        None \<Rightarrow> Inl TypeError
      | Some r \<Rightarrow> Inr (map (\<lambda>member. Added member None) (contents w r), addArrayObserver r w))"

text \<open>One run call by call: \<open>added\<close> is called before \<open>addArrayObserver\<close>.\<close>

definition arrayMemberObserver2_calls :: "'a oworld \<Rightarrow> error + ('a event \<times> 'a oworld) list" where
  "arrayMemberObserver2_calls w =
     (case dependent w of
        None \<Rightarrow> Inl TypeError
      | Some r \<Rightarrow> Inr (map (\<lambda>member. (Added member None, w)) (contents w r)))"

text \<open>
  A content mutation under the second variant. The function is wrapped in
  \<open>observer(dependentArrayKey + '.[]', ...)\<close>, so a mutation of the array that the
  dependent key holds runs it again: the host sends \<open>arrayWillChange\<close> to the observers
  registered on the array, replaces the elements, notifies the observers of \<open>[]\<close>
  (the run: \<open>added\<close> for every element, and one more array observer), and then sends
  \<open>arrayDidChange\<close> to the observers registered by then.
\<close>

definition array_replace2 ::
  "ref \<Rightarrow> nat \<Rightarrow> nat \<Rightarrow> 'a list \<Rightarrow> 'a oworld \<Rightarrow> error + 'a event list \<times> 'a oworld" where
  "array_replace2 r start removeAmt objects w =
     (let old = contents w r;
          new = splice start removeAmt objects old;
          ev1 = concat (map (\<lambda>h. arrayWillChange2 old start removeAmt (length objects))
                         (filter (\<lambda>(a, t). a = r) (hooks w)));
          w1 = w\<lparr>contents := (contents w)(r := new)\<rparr>;
          did = (\<lambda>w'. concat (map (\<lambda>h. arrayDidChange2 new start removeAmt (length objects))
                                (filter (\<lambda>(a, t). a = r) (hooks w'))))
      in if dependent w1 = Some r
         then (case arrayMemberObserver2 w1 of
                 Inl e \<Rightarrow> Inl e
               | Inr (ev2, w2) \<Rightarrow> Inr (ev1 @ ev2 @ did w2, w2))
         else Inr (ev1 @ did w1, w1))"

section \<open>nestedArrayObserver\<close>

text \<open>
  \<^verbatim>\<open>
  const observerCache = Ember.A();
  return arrayMemberObserver(dependentArrayKey, {
    added(nestedArray) {
      assert(..., Ember.isArray(nestedArray));
      const cached = {
        parent: this,
        target: nestedArray,
        observer: observerFn.bind(this, nestedArray)
      };
      observerCache.pushObject(cached);
      nestedArray.addObserver('[]', this, cached.observer);
      cached.observer();
    },
    removed(nestedArray) {
      const cached = observerCache.find((item) => {
        return item.target === nestedArray && item.parent === this;
      });
      if (cached) {
        nestedArray.removeObserver('[]', this, cached.observer);
        observerCache.removeObject(cached);
      }
    }
  });
  \<close>
  \<open>observerCache\<close> belongs to the macro call, so all instances of the class share it.
  Every \<open>bind\<close> makes a new function, named by the next unused number; calling it calls
  \<open>observerFn\<close> with \<open>this\<close> and the nested array, which \<open>calls\<close> records.
  \<open>item_observers\<close> are the observers of \<open>'[]'\<close> registered on arrays: the array, the
  target and the function. A raised error keeps what was done before it.
\<close>

record 'c nworld =
  observerCache :: "'c list"
  item_observers :: "(ref \<times> owner \<times> nat) list"
  next_fn :: nat
  calls :: "(owner \<times> anyval) list"

definition nested_added ::
  "owner \<Rightarrow> anyval \<Rightarrow> (owner \<times> anyval \<times> nat) nworld \<Rightarrow> error option \<times> (owner \<times> anyval \<times> nat) nworld" where
  "nested_added this nestedArray w =
     (case nestedArray of
        Prim p \<Rightarrow> (Some AssertionFailed, w)
      | Arr r \<Rightarrow>
          (let fn = next_fn w;
               cached = (this, nestedArray, fn);
               w1 = w\<lparr>next_fn := Suc fn, observerCache := observerCache w @ [cached]\<rparr>;
               w2 = w1\<lparr>item_observers := item_observers w1 @ [(r, this, fn)]\<rparr>;
               w3 = w2\<lparr>calls := calls w2 @ [(this, nestedArray)]\<rparr>
           in (None, w3)))"

definition nested_removed ::
  "owner \<Rightarrow> anyval \<Rightarrow> (owner \<times> anyval \<times> nat) nworld \<Rightarrow> error option \<times> (owner \<times> anyval \<times> nat) nworld" where
  "nested_removed this nestedArray w =
     (case List.find (\<lambda>(parent, target, observer). target = nestedArray \<and> parent = this) (observerCache w) of
        None \<Rightarrow> (None, w)
      | Some cached \<Rightarrow>
          (case nestedArray of
             Prim p \<Rightarrow> (Some TypeError, w)
           | Arr r \<Rightarrow>
               (None, w\<lparr>item_observers := filter (\<lambda>e. e \<noteq> (r, this, snd (snd cached))) (item_observers w),
                         observerCache := filter (\<lambda>c. c \<noteq> cached) (observerCache w)\<rparr>)))"

subsection \<open>The second variant\<close>

text \<open>
  \<^verbatim>\<open>
  added(nestedArray) {
    const cached = {
      target: nestedArray,
      observer: observerFn.bind(this, nestedArray)
    };
    observerCache.pushObject(cached);
    nestedArray.addObserver('[]', this, cached.observer);
  },
  removed(nestedArray) {
    const cached = observerCache.find((item) => item.target === nestedArray);
    nestedArray.removeObserver('[]', this, cached.observer);
    observerCache.removeObject(cached);
  }
  \<close>
  Reading \<open>cached.observer\<close> when \<open>find\<close> returned \<open>undefined\<close> raises a TypeError.
\<close>

definition nested_added2 ::
  "owner \<Rightarrow> anyval \<Rightarrow> (anyval \<times> nat) nworld \<Rightarrow> error option \<times> (anyval \<times> nat) nworld" where
  "nested_added2 this nestedArray w =
     (let fn = next_fn w;
          cached = (nestedArray, fn);
          w1 = w\<lparr>next_fn := Suc fn, observerCache := observerCache w @ [cached]\<rparr>
      in case nestedArray of
           Prim p \<Rightarrow> (Some TypeError, w1)
         | Arr r \<Rightarrow> (None, w1\<lparr>item_observers := item_observers w1 @ [(r, this, fn)]\<rparr>))"

definition nested_removed2 ::
  "owner \<Rightarrow> anyval \<Rightarrow> (anyval \<times> nat) nworld \<Rightarrow> error option \<times> (anyval \<times> nat) nworld" where
  "nested_removed2 this nestedArray w =
     (case List.find (\<lambda>(target, observer). target = nestedArray) (observerCache w) of
        None \<Rightarrow> (Some TypeError, w)
      | Some cached \<Rightarrow>
          (case nestedArray of
             Prim p \<Rightarrow> (Some TypeError, w)
           | Arr r \<Rightarrow>
               (None, w\<lparr>item_observers := filter (\<lambda>e. e \<noteq> (r, this, snd cached)) (item_observers w),
                         observerCache := filter (\<lambda>c. c \<noteq> cached) (observerCache w)\<rparr>)))"

text \<open>
  The callbacks run on the notifications of \<open>arrayMemberObserver\<close> over the outer
  array, in order, up to the first error.
\<close>

fun nested_dispatch ::
  "(owner \<Rightarrow> anyval \<Rightarrow> 'w \<Rightarrow> error option \<times> 'w) \<Rightarrow> (owner \<Rightarrow> anyval \<Rightarrow> 'w \<Rightarrow> error option \<times> 'w)
     \<Rightarrow> owner \<Rightarrow> anyval event list \<Rightarrow> 'w \<Rightarrow> error option \<times> 'w" where
  "nested_dispatch added removed this [] w = (None, w)"
| "nested_dispatch added removed this (Added x i # es) w =
     (case added this x w of
        (None, w') \<Rightarrow> nested_dispatch added removed this es w'
      | (Some e, w') \<Rightarrow> (Some e, w'))"
| "nested_dispatch added removed this (Removed x i # es) w =
     (case removed this x w of
        (None, w') \<Rightarrow> nested_dispatch added removed this es w'
      | (Some e, w') \<Rightarrow> (Some e, w'))"

section \<open>Example states\<close>

text \<open>One instance whose dependent key holds the array \<open>["a", "b"]\<close>.\<close>

definition ab_state :: joined where
  "ab_state = \<lparr>defaultValue = None,
     world = \<lparr>arrays = (\<lambda>_. [])(0 := [JStr ''a'', JStr ''b'']), fresh = 1, slot = (\<lambda>_. Arr 0)\<rparr>\<rparr>"

text \<open>Two instances of one class: instance 0 holds \<open>["a"]\<close>, instance 1 holds \<open>["x"]\<close>.\<close>

definition two_state :: joined where
  "two_state = \<lparr>defaultValue = None,
     world = \<lparr>arrays = (\<lambda>_. [])(0 := [JStr ''a''], 1 := [JStr ''x'']), fresh = 2,
              slot = (\<lambda>_. Prim Undefined)(0 := Arr 0, 1 := Arr 1)\<rparr>\<rparr>"

text \<open>No instance initialised yet; array 0 is some array \<open>["x"]\<close> of the application.\<close>

definition m0 :: mstate where
  "m0 = \<lparr>m_arrays = (\<lambda>_. [])(0 := [JStr ''x'']), m_fresh = 1, source = Map.empty\<rparr>"

text \<open>
  An owner whose dependent key holds array 0, \<open>[10, 11, 12, 13, 14]\<close>, before its init
  hook has run; array 1 is \<open>[20, 21]\<close>.
\<close>

definition five :: "nat oworld" where
  "five = \<lparr>contents = (\<lambda>_. [])(0 := [10, 11, 12, 13, 14], 1 := [20, 21]), dependent = Some 0,
           previousArray = None, hooks = [], next_hook = 0, key_observed = False\<rparr>"

text \<open>An owner whose outer array 0 is empty; array 1 is the inner array \<open>[1, 2]\<close>.\<close>

definition outer :: "anyval oworld" where
  "outer = \<lparr>contents = (\<lambda>_. [])(1 := [Prim (JNum 1), Prim (JNum 2)]), dependent = Some 0,
            previousArray = None, hooks = [], next_hook = 0, key_observed = False\<rparr>"

definition no_nested :: "'c nworld" where
  "no_nested = \<lparr>observerCache = [], item_observers = [], next_fn = 0, calls = []\<rparr>"

text \<open>
  The invariant of \<open>mergedArray\<close>: every captured \<open>source\<close> array has been allocated,
  and no two instances captured the same one.
\<close>

definition sources_ok :: "mstate \<Rightarrow> bool" where
  "sources_ok st = ((\<forall>a r. source st a = Some r \<longrightarrow> r < m_fresh st)
                   \<and> (\<forall>a b r. source st a = Some r \<and> source st b = Some r \<longrightarrow> a = b))"

section \<open>Properties of mergeArrays\<close>

lemmas run_defs = joinedArray_set_def joinedArray_get_def set_merge_def cache_default_def alloc_def
  default_merge_def mergeArrays_any_def mergeArrays_def forEach_def push_missing_def
  remove_stale_def find_js_def pushObject_def removeObject_def join_js_def split_js_def
  eval_nat_numeral Let_def

lemma mergeArrays_returns_original: "fst (mergeArrays original update comparator h) = original"
  by (simp add: mergeArrays_def Let_def)

lemma push_missing_frame: "r \<noteq> original \<Longrightarrow> push_missing cmp original item h r = h r"
  by (simp add: push_missing_def pushObject_def)

lemma remove_stale_frame: "r \<noteq> original \<Longrightarrow> remove_stale cmp original update item h r = h r"
  by (simp add: remove_stale_def removeObject_def)

lemma forEach_from_frame:
  assumes "\<And>item s. f item s r = s r"
  shows "forEach_from n k a f h r = h r"
  using assms by (induction n arbitrary: k h) auto

text \<open>The merge changes no array but \<open>original\<close>; in particular not \<open>update\<close>.\<close>

lemma mergeArrays_frame: "r \<noteq> original \<Longrightarrow> snd (mergeArrays original update comparator h) r = h r"
  by (simp add: mergeArrays_def Let_def forEach_def forEach_from_frame push_missing_frame
      remove_stale_frame)

text \<open>
  C1. The merge returns \<open>original\<close> itself (\<open>mergeArrays_returns_original\<close>), but the
  claim that afterwards every element left in \<open>original\<close> has a match in \<open>update\<close>,
  the removal pass running over a snapshot, fails on the code. The removal pass is
  \<open>original.forEach\<close> over the live array while \<open>removeObject\<close> shortens it: the
  element that follows a removed one moves to the index just visited and is never
  examined. Merging \<open>[1, 2, 3]\<close> with \<open>[3]\<close> returns \<open>[2, 3]\<close>, and \<open>2\<close> has no match
  in the update.
\<close>

theorem mergeArrays_skips_element_after_removal:
  "(let h = (\<lambda>_. [])(0 := [JNum 1, JNum 2, JNum 3], 1 := [JNum 3]);
        (r, h') = mergeArrays 0 1 None h
    in r = 0 \<and> h' 0 = [JNum 2, JNum 3] \<and> h' 1 = [JNum 3]
       \<and> JNum 2 \<in> set (h' 0) \<and> JNum 2 \<notin> set (h' 1))"
  by (simp add: mergeArrays_def forEach_def push_missing_def remove_stale_def find_js_def
      pushObject_def removeObject_def eval_nat_numeral)

text \<open>
  The test \<open>!original.find(...)\<close> is on the element found, so a falsy element counts
  as missing: merging \<open>[0]\<close> with \<open>[0]\<close> appends a second \<open>0\<close> and then removes both.
\<close>

lemma mergeArrays_loses_falsy_element:
  "snd (mergeArrays 0 1 None ((\<lambda>_. [])(0 := [JNum 0], 1 := [JNum 0]))) 0 = []"
  by (simp add: mergeArrays_def forEach_def push_missing_def remove_stale_def find_js_def
      pushObject_def removeObject_def eval_nat_numeral)

section \<open>Properties of joinedArray\<close>

text \<open>
  C5. Setting the joined view to the empty string is claimed to empty the underlying
  array, a later get returning the empty string. The setter merges against a new empty
  array, and the removal pass of \<open>mergeArrays\<close> passes over every second element (the
  defect of C1): on \<open>["a", "b"]\<close> with separator \<open>","\<close> the setter returns \<open>"b"\<close>, the
  array is left as \<open>["b"]\<close>, and the next get returns \<open>"b"\<close>.
\<close>

theorem joinedArray_set_empty_keeps_second_element:
  "fst (joinedArray_set '','' None 0 (Prim (JStr [])) ab_state) = Inr ''b''
   \<and> arrays (world (snd (joinedArray_set '','' None 0 (Prim (JStr [])) ab_state))) 0 = [JStr ''b'']
   \<and> fst (joinedArray_get '','' 0 (snd (joinedArray_set '','' None 0 (Prim (JStr [])) ab_state)))
       = Inr (JStr ''b'')"
  by (simp add: ab_state_def run_defs)

text \<open>On an array of one element the reset does what is claimed.\<close>

lemma joinedArray_set_empty_single:
  "fst (joinedArray_set '','' None 1 (Prim (JStr [])) two_state) = Inr []
   \<and> arrays (world (snd (joinedArray_set '','' None 1 (Prim (JStr [])) two_state))) 1 = []"
  by (simp add: two_state_def run_defs)

lemma set_merge_default:
  assumes "isNone v \<or> isString v"
    and "slot (world st) this = Arr r"
    and "defaultValue st = None \<or> (\<exists>d. defaultValue st = Some (Arr d))"
  shows "\<exists>st'. set_merge separator None this v st = (Inr (Arr r), st') \<and> slot (world st') this = Arr r
      \<and> (\<exists>d. defaultValue st' = Some (Arr d))"
  using assms
  by (cases v rule: isNone.cases)
     (auto simp: set_merge_def cache_default_def default_merge_def mergeArrays_any_def alloc_def
        Let_def mergeArrays_def
        split: prod.splits option.splits anyval.splits jsval.splits)

lemma joinedArray_set_joins_result:
  assumes "set_merge separator mergeFn this v st = (Inr (Arr r), st')"
  shows "joinedArray_set separator mergeFn this v st
           = (Inr (join_js separator (arrays (world st') r)), st')"
  using assms by (simp add: joinedArray_set_def)

text \<open>
  C6. For a set with an absent or string value, what the setter returns is the join of
  the array that the merge function returned, read after the merge: for any merge
  function, whenever the merge returns an array. With the default merge, on an instance
  whose dependent key holds an array, the merge does return, its result is that very
  array, and the setter returns what a get then returns. (The default was cached from an
  array or is not cached yet.)
\<close>

theorem joinedArray_set_returns_join_of_merged:
  assumes "isNone v \<or> isString v"
  shows "(\<forall>r' st'. set_merge separator mergeFn this v st = (Inr (Arr r'), st') \<longrightarrow>
            joinedArray_set separator mergeFn this v st
              = (Inr (join_js separator (arrays (world st') r')), st'))
       \<and> (slot (world st) this = Arr r
            \<and> (defaultValue st = None \<or> (\<exists>d. defaultValue st = Some (Arr d))) \<longrightarrow>
          (\<exists>st'. set_merge separator None this v st = (Inr (Arr r), st')
             \<and> joinedArray_set separator None this v st
                 = (Inr (join_js separator (arrays (world st') r)), st')
             \<and> joinedArray_get separator this st'
                 = (Inr (JStr (join_js separator (arrays (world st') r))), st')))"
proof (intro conjI allI impI)
  fix r' st'
  assume "set_merge separator mergeFn this v st = (Inr (Arr r'), st')"
  then show "joinedArray_set separator mergeFn this v st
      = (Inr (join_js separator (arrays (world st') r')), st')"
    by (rule joinedArray_set_joins_result)
next
  assume h: "slot (world st) this = Arr r
      \<and> (defaultValue st = None \<or> (\<exists>d. defaultValue st = Some (Arr d)))"
  then have s0: "slot (world st) this = Arr r"
    and d0: "defaultValue st = None \<or> (\<exists>d. defaultValue st = Some (Arr d))"
    by simp_all
  from set_merge_default [OF assms s0 d0] obtain st' where
    m: "set_merge separator None this v st = (Inr (Arr r), st')"
    and s: "slot (world st') this = Arr r"
    and d: "\<exists>d. defaultValue st' = Some (Arr d)"
    by blast
  have g: "joinedArray_get separator this st'
      = (Inr (JStr (join_js separator (arrays (world st') r))), st')"
    using s d by (auto simp: joinedArray_get_def cache_default_def Let_def)
  from m g joinedArray_set_joins_result [OF m]
  show "\<exists>st'. set_merge separator None this v st = (Inr (Arr r), st')
      \<and> joinedArray_set separator None this v st
          = (Inr (join_js separator (arrays (world st') r)), st')
      \<and> joinedArray_get separator this st'
          = (Inr (JStr (join_js separator (arrays (world st') r))), st')"
    by blast
qed

text \<open>
  The theorem at \<open>["a", "b"]\<close> set to \<open>"c,c"\<close>: the setter returns \<open>"b,c"\<close>, the join of
  the merged array and not the string it was given. With a merge function that returns
  the update, the setter returns the join of that array.
\<close>

theorem joinedArray_set_returns_join_of_merged_witness:
  "(isNone (Prim (JStr ''c,c'')) \<or> isString (Prim (JStr ''c,c'')))
   \<and> joinedArray_set '','' None 0 (Prim (JStr ''c,c'')) ab_state
       = (Inr ''b,c'', snd (joinedArray_set '','' None 0 (Prim (JStr ''c,c'')) ab_state))
   \<and> join_js '','' (arrays (world (snd (joinedArray_set '','' None 0 (Prim (JStr ''c,c'')) ab_state))) 0)
       = ''b,c''
   \<and> fst (joinedArray_set '','' (Some (\<lambda>this original update h. (Inr update, h))) 0
            (Prim (JStr ''c,c'')) ab_state) = Inr ''c,c''"
proof -
  have a: "isNone (Prim (JStr ''c,c'')) \<or> isString (Prim (JStr ''c,c''))" by simp
  have b: "slot (world ab_state) 0 = Arr 0
      \<and> (defaultValue ab_state = None \<or> (\<exists>d. defaultValue ab_state = Some (Arr d)))"
    by (simp add: ab_state_def)
  note t = joinedArray_set_returns_join_of_merged [OF a]
  from t [of "'',''" None 0 ab_state 0] b obtain st' where
    e: "joinedArray_set '','' None 0 (Prim (JStr ''c,c'')) ab_state
          = (Inr (join_js '','' (arrays (world st') 0)), st')"
    by blast
  have f: "fst (joinedArray_set '','' None 0 (Prim (JStr ''c,c'')) ab_state) = Inr ''b,c''"
    by (simp add: ab_state_def run_defs)
  have m: "set_merge '','' (Some (\<lambda>this original update h. (Inr update, h))) 0 (Prim (JStr ''c,c'')) ab_state
      = (Inr (Arr 1), snd (set_merge '','' (Some (\<lambda>this original update h. (Inr update, h))) 0
            (Prim (JStr ''c,c'')) ab_state))"
    by (simp add: ab_state_def set_merge_def cache_default_def alloc_def Let_def)
  have j: "join_js '','' (arrays (world (snd (set_merge '','' (Some (\<lambda>this original update h. (Inr update, h))) 0
            (Prim (JStr ''c,c'')) ab_state))) 1) = ''c,c''"
    by (simp add: ab_state_def set_merge_def cache_default_def alloc_def Let_def join_js_def
        split_js_def)
  from t [of "'',''" "Some (\<lambda>this original update h. (Inr update, h))" 0 ab_state] m j
  have g: "fst (joinedArray_set '','' (Some (\<lambda>this original update h. (Inr update, h))) 0
            (Prim (JStr ''c,c'')) ab_state) = Inr ''c,c''"
    by simp
  from a e f g show ?thesis by simp
qed

subsection \<open>The cached default\<close>

lemma cache_default_kept:
  "defaultValue st = Some d \<Longrightarrow> truthy_any d \<Longrightarrow> cache_default this st = st"
  by (simp add: cache_default_def)

lemma cache_default_assigns:
  assumes "defaultValue st = None"
  shows "\<exists>d. defaultValue (cache_default this st) = Some d \<and> truthy_any d
           \<and> (truthy_any (slot (world st) this) \<longrightarrow> d = slot (world st) this)"
  using assms by (auto simp: cache_default_def alloc_def Let_def)

lemma set_merge_defaultValue:
  "isNone v \<or> isString v \<Longrightarrow>
   defaultValue (snd (set_merge separator mergeFn this v st)) = defaultValue (cache_default this st)"
  by (auto simp: set_merge_def Let_def split: prod.splits)

lemma set_merge_defaultValue_kept:
  "defaultValue st = Some d \<Longrightarrow> truthy_any d \<Longrightarrow>
   defaultValue (snd (set_merge separator mergeFn this v st)) = Some d"
  by (auto simp: set_merge_def Let_def cache_default_kept split: prod.splits)

lemma joinedArray_set_state:
  "snd (joinedArray_set separator mergeFn this v st) = snd (set_merge separator mergeFn this v st)"
  by (auto simp: joinedArray_set_def split: prod.splits sum.splits anyval.splits)

lemma joinedArray_get_state:
  "snd (joinedArray_get separator this st) = cache_default this st"
  by (auto simp: joinedArray_get_def Let_def split: anyval.splits)

lemma joined_step_kept:
  "defaultValue st = Some d \<Longrightarrow> truthy_any d \<Longrightarrow>
   defaultValue (joined_step separator mergeFn op st) = Some d"
  by (cases op)
     (simp_all add: joined_step_def joinedArray_get_state joinedArray_set_state cache_default_kept
        set_merge_defaultValue_kept)

lemma joined_run_kept:
  "defaultValue st = Some d \<Longrightarrow> truthy_any d \<Longrightarrow>
   defaultValue (joined_run separator mergeFn ops st) = Some d"
proof (induction ops arbitrary: st)
  case Nil
  then show ?case by (simp add: joined_run_def)
next
  case (Cons op ops)
  have "defaultValue (joined_step separator mergeFn op st) = Some d"
    using Cons.prems by (rule joined_step_kept)
  from Cons.IH [OF this Cons.prems(2)] show ?case by (simp add: joined_run_def)
qed

lemma joined_step_first:
  assumes "defaultValue st = None"
    and "first = Get this \<or> (\<exists>v. first = Set this v \<and> (isNone v \<or> isString v))"
  shows "defaultValue (joined_step separator mergeFn first st) = defaultValue (cache_default this st)"
  using assms
  by (auto simp: joined_step_def joinedArray_get_state joinedArray_set_state set_merge_defaultValue)

lemma set_merge_absent:
  assumes "defaultValue st = Some d" and "truthy_any d" and "isNone v"
  shows "set_merge separator mergeFn this v st =
           (let (res, h) = (case mergeFn of Some m \<Rightarrow> m | None \<Rightarrow> default_merge) this
                             (slot (world st) this) d (world st)
            in (res, st\<lparr>world := h\<rparr>))"
  using assms
  by (cases v rule: isNone.cases) (simp_all add: set_merge_def cache_default_kept Let_def)

text \<open>
  C10. \<open>defaultValue\<close> belongs to the macro's closure, one for all instances. The first
  get, or set with an absent or string value, on any instance \<open>this0\<close> assigns it: the
  value of that instance's dependent key if it is truthy (its array), a new empty array
  otherwise. No later get or set on any instance assigns it again, and every later set
  of an absent value, on any instance, calls the merge function with that first value as
  the update.
\<close>

theorem joinedArray_default_captured_once:
  assumes "defaultValue st = None"
    and "first = Get this0 \<or> (\<exists>v. first = Set this0 v \<and> (isNone v \<or> isString v))"
  shows "\<exists>d. defaultValue (joined_step separator mergeFn first st) = Some d
           \<and> (truthy_any (slot (world st) this0) \<longrightarrow> d = slot (world st) this0)
           \<and> (\<forall>ops this v.
                 defaultValue (joined_run separator mergeFn ops (joined_step separator mergeFn first st))
                   = Some d
               \<and> (isNone v \<longrightarrow>
                    set_merge separator mergeFn this v
                        (joined_run separator mergeFn ops (joined_step separator mergeFn first st)) =
                      (let st' = joined_run separator mergeFn ops (joined_step separator mergeFn first st);
                           (res, h) = (case mergeFn of Some m \<Rightarrow> m | None \<Rightarrow> default_merge) this
                                        (slot (world st') this) d (world st')
                       in (res, st'\<lparr>world := h\<rparr>))))"
proof -
  from cache_default_assigns [OF assms(1), of this0] obtain d where
    d: "defaultValue (cache_default this0 st) = Some d" and t: "truthy_any d"
    and s: "truthy_any (slot (world st) this0) \<longrightarrow> d = slot (world st) this0"
    by blast
  have f: "defaultValue (joined_step separator mergeFn first st) = Some d"
    using joined_step_first [OF assms] d by simp
  have k: "defaultValue (joined_run separator mergeFn ops (joined_step separator mergeFn first st)) = Some d"
    for ops
    using f t by (rule joined_run_kept)
  have m: "isNone v \<Longrightarrow>
      set_merge separator mergeFn this v
          (joined_run separator mergeFn ops (joined_step separator mergeFn first st)) =
        (let st' = joined_run separator mergeFn ops (joined_step separator mergeFn first st);
             (res, h) = (case mergeFn of Some m \<Rightarrow> m | None \<Rightarrow> default_merge) this
                          (slot (world st') this) d (world st')
         in (res, st'\<lparr>world := h\<rparr>))" for ops this v
    using set_merge_absent [OF k t] by (simp add: Let_def)
  show ?thesis using f s k m by blast
qed

text \<open>
  The theorem on two instances: a get on instance 0 caches instance 0's array; after a
  set on instance 1, a set of an absent value on instance 1 merges instance 1's array
  against instance 0's, and leaves it as \<open>["a"]\<close>.
\<close>

theorem joinedArray_default_captured_once_witness:
  "defaultValue two_state = None
   \<and> defaultValue (joined_run '','' None [Set 1 (Prim (JStr ''y''))] (joined_step '','' None (Get 0) two_state))
       = Some (Arr 0)
   \<and> fst (set_merge '','' None 1 (Prim Undefined)
        (joined_run '','' None [Set 1 (Prim (JStr ''y''))] (joined_step '','' None (Get 0) two_state)))
       = Inr (Arr 1)
   \<and> arrays (world (snd (set_merge '','' None 1 (Prim Undefined)
        (joined_run '','' None [Set 1 (Prim (JStr ''y''))] (joined_step '','' None (Get 0) two_state))))) 1
       = [JStr ''a'']"
proof -
  have a: "defaultValue two_state = None" by (simp add: two_state_def)
  have b: "Get 0 = Get 0 \<or> (\<exists>v. Get 0 = Set 0 v \<and> (isNone v \<or> isString v))" by simp
  have s: "slot (world two_state) 0 = Arr 0" by (simp add: two_state_def)
  from joinedArray_default_captured_once [OF a b, of "'',''" None] obtain d where
    d: "truthy_any (slot (world two_state) 0) \<longrightarrow> d = slot (world two_state) 0"
    and k: "\<And>ops. defaultValue (joined_run '','' None ops (joined_step '','' None (Get 0) two_state)) = Some d"
    by blast
  from d s have "d = Arr 0" by simp
  with k have 1: "defaultValue (joined_run '','' None [Set 1 (Prim (JStr ''y''))]
      (joined_step '','' None (Get 0) two_state)) = Some (Arr 0)"
    by simp
  have 2: "fst (set_merge '','' None 1 (Prim Undefined)
        (joined_run '','' None [Set 1 (Prim (JStr ''y''))] (joined_step '','' None (Get 0) two_state)))
      = Inr (Arr 1)"
    by (simp add: two_state_def joined_run_def joined_step_def run_defs)
  have 3: "arrays (world (snd (set_merge '','' None 1 (Prim Undefined)
        (joined_run '','' None [Set 1 (Prim (JStr ''y''))] (joined_step '','' None (Get 0) two_state))))) 1
      = [JStr ''a'']"
    by (simp add: two_state_def joined_run_def joined_step_def run_defs)
  from a 1 2 3 show ?thesis by simp
qed

section \<open>Properties of instanceScoped and mergedArray\<close>

lemma mergedArray_init_source:
  "source (mergedArray_init this st) = (source st)(this \<mapsto> m_fresh st)"
  "m_fresh (mergedArray_init this st) = Suc (m_fresh st)"
  "m_arrays (mergedArray_init this st) = (m_arrays st)(m_fresh st := [])"
  by (simp_all add: mergedArray_init_def instanceScoped_def mergedArray_factory_def)

lemma mergeArrays_any_frame:
  "r \<noteq> ra \<Longrightarrow> snd (mergeArrays_any (Arr ra) update s) r = s r"
  by (cases update) (simp_all add: mergeArrays_any_def split_def Let_def mergeArrays_frame)

lemma mergedArray_set_source:
  "source (snd (mergedArray_set None this update st)) = source st"
  "m_fresh (snd (mergedArray_set None this update st)) = m_fresh st"
  by (auto simp: mergedArray_set_def split: option.splits prod.splits)

lemma mergedArray_set_frame:
  assumes "source st a = Some ra" and "rb \<noteq> ra"
  shows "m_arrays (snd (mergedArray_set None a update st)) rb = m_arrays st rb"
  using assms mergeArrays_any_frame [of rb ra update "m_arrays st"]
  by (auto simp: mergedArray_set_def split: prod.splits)

lemma sources_ok_init: "sources_ok st \<Longrightarrow> sources_ok (mergedArray_init this st)"
  unfolding sources_ok_def mergedArray_init_source
  by (auto simp: less_Suc_eq split: if_splits)

lemma sources_ok_set: "sources_ok st \<Longrightarrow> sources_ok (snd (mergedArray_set None this update st))"
  by (simp add: sources_ok_def mergedArray_set_source)

lemma sources_ok_step: "sources_ok st \<Longrightarrow> sources_ok (merged_step op st)"
  by (cases op) (simp_all add: merged_step_def sources_ok_init sources_ok_set)

lemma sources_ok_run: "sources_ok st \<Longrightarrow> sources_ok (merged_run ops st)"
proof (induction ops arbitrary: st)
  case Nil
  then show ?case by (simp add: merged_run_def)
next
  case (Cons op ops)
  from Cons.IH [OF sources_ok_step [OF Cons.prems]] show ?case by (simp add: merged_run_def)
qed

text \<open>
  C9. \<open>instanceScoped\<close> runs the factory in the init hook of each instance, so the
  \<open>source\<close> array of \<open>mergedArray\<close> is allocated then, empty, and is an array no
  instance holds yet. In every state reached from one with no instance by inits, gets
  and sets (with the default merge function), two distinct instances hold distinct
  arrays, a get on an instance returns its own array, and a set on one instance, with
  any update, changes neither the array of another instance nor which array any
  instance holds.
\<close>

theorem instanceScoped_source_private:
  assumes "source st0 = Map.empty"
    and "st = merged_run ops st0"
  shows "source (mergedArray_init a st) a = Some (m_fresh st)
       \<and> m_arrays (mergedArray_init a st) (m_fresh st) = []
       \<and> (\<forall>b r. source st b = Some r \<longrightarrow> r \<noteq> m_fresh st)
       \<and> (\<forall>a b ra rb. a \<noteq> b \<and> source st a = Some ra \<and> source st b = Some rb \<longrightarrow>
             ra \<noteq> rb
           \<and> mergedArray_get a st = Arr ra
           \<and> (\<forall>update. m_arrays (snd (mergedArray_set None a update st)) rb = m_arrays st rb
                      \<and> source (snd (mergedArray_set None a update st)) = source st))"
proof -
  have "sources_ok st0" using assms(1) by (simp add: sources_ok_def)
  then have ok: "sources_ok st" unfolding assms(2) by (rule sources_ok_run)
  have 1: "source (mergedArray_init a st) a = Some (m_fresh st)"
    and 2: "m_arrays (mergedArray_init a st) (m_fresh st) = []"
    by (simp_all add: mergedArray_init_source)
  have 3: "\<forall>b r. source st b = Some r \<longrightarrow> r \<noteq> m_fresh st"
    using ok by (auto simp: sources_ok_def)
  have 4: "ra \<noteq> rb" if "a \<noteq> b" "source st a = Some ra" "source st b = Some rb" for a b ra rb
    using ok that by (auto simp: sources_ok_def)
  have 5: "mergedArray_get a st = Arr ra" if "source st a = Some ra" for a ra
    using that by (simp add: mergedArray_get_def)
  have 6: "m_arrays (snd (mergedArray_set None a update st)) rb = m_arrays st rb"
    if "a \<noteq> b" "source st a = Some ra" "source st b = Some rb" for a b ra rb update
    using mergedArray_set_frame [OF that(2), of rb update] 4 [OF that] by auto
  have 7: "ra \<noteq> rb \<and> mergedArray_get a st = Arr ra
           \<and> (\<forall>update. m_arrays (snd (mergedArray_set None a update st)) rb = m_arrays st rb
                      \<and> source (snd (mergedArray_set None a update st)) = source st)"
    if h: "a \<noteq> b \<and> source st a = Some ra \<and> source st b = Some rb" for a b ra rb
  proof -
    from h have x: "a \<noteq> b" and y: "source st a = Some ra" and z: "source st b = Some rb"
      by simp_all
    show ?thesis
      using 4 [OF x y z] 5 [OF y] 6 [OF x y z] by (simp add: mergedArray_set_source)
  qed
  have 8: "\<forall>a b ra rb. a \<noteq> b \<and> source st a = Some ra \<and> source st b = Some rb \<longrightarrow>
             ra \<noteq> rb
           \<and> mergedArray_get a st = Arr ra
           \<and> (\<forall>update. m_arrays (snd (mergedArray_set None a update st)) rb = m_arrays st rb
                      \<and> source (snd (mergedArray_set None a update st)) = source st)"
    by (intro allI impI) (rule 7)
  from 1 2 3 8 show ?thesis by (intro conjI)
qed

text \<open>
  The theorem on two instances, 5 and 6, initialised in turn: they hold arrays 1 and 2,
  and setting instance 5 to the array \<open>["x"]\<close> fills array 1 and leaves array 2 empty.
\<close>

theorem instanceScoped_source_private_witness:
  "source m0 = Map.empty
   \<and> source (merged_run [Init 5, Init 6] m0) 5 = Some 1
   \<and> source (merged_run [Init 5, Init 6] m0) 6 = Some 2
   \<and> m_arrays (snd (mergedArray_set None 5 (Arr 0) (merged_run [Init 5, Init 6] m0))) 1 = [JStr ''x'']
   \<and> m_arrays (snd (mergedArray_set None 5 (Arr 0) (merged_run [Init 5, Init 6] m0))) 2 = []
   \<and> mergedArray_get 5 (merged_run [Init 5, Init 6] m0) = Arr 1"
proof -
  have e: "source m0 = Map.empty" by (simp add: m0_def)
  have r: "source (merged_run [Init 5, Init 6] m0) 5 = Some 1"
    "source (merged_run [Init 5, Init 6] m0) 6 = Some 2"
    "m_arrays (merged_run [Init 5, Init 6] m0) 2 = []"
    by (simp_all add: m0_def merged_run_def merged_step_def mergedArray_init_def instanceScoped_def
        mergedArray_factory_def)
  have x: "m_arrays (snd (mergedArray_set None 5 (Arr 0) (merged_run [Init 5, Init 6] m0))) 1 = [JStr ''x'']"
    by (simp add: m0_def merged_run_def merged_step_def mergedArray_init_def instanceScoped_def
        mergedArray_factory_def mergedArray_set_def mergeArrays_any_def mergeArrays_def forEach_def
        push_missing_def remove_stale_def find_js_def pushObject_def removeObject_def
        eval_nat_numeral Let_def)
  have n: "(5::nat) \<noteq> 6 \<and> source (merged_run [Init 5, Init 6] m0) 5 = Some 1
      \<and> source (merged_run [Init 5, Init 6] m0) 6 = Some 2"
    using r by simp
  from instanceScoped_source_private [OF e refl, where ops = "[Init 5, Init 6]" and a = 0] n
  have "m_arrays (snd (mergedArray_set None 5 (Arr 0) (merged_run [Init 5, Init 6] m0))) 2
          = m_arrays (merged_run [Init 5, Init 6] m0) 2
      \<and> mergedArray_get 5 (merged_run [Init 5, Init 6] m0) = Arr 1"
    by blast
  with e r x show ?thesis by simp
qed

section \<open>Properties of arrayMemberObserver\<close>

lemmas obs_defs = arrayMemberObserver_def observeDependentArray_def addArrayObserver_def
  removeArrayObserver_def set_dependent_def array_replace_def splice_def slice_js_def
  arrayWillChange_def arrayDidChange_def arrayWillChange2_def arrayDidChange2_def
  arrayMemberObserver2_def enumerate_eq_zip watched_def Let_def

lemma slice_indices:
  "map (\<lambda>(i, item). f item (i + start)) (enumerate 0 (slice_js start (start + n) xs))
     = map (\<lambda>i. f (xs ! i) i) [start ..< min (start + n) (length xs)]"
proof (rule nth_equalityI)
  show "length (map (\<lambda>(i, item). f item (i + start)) (enumerate 0 (slice_js start (start + n) xs)))
      = length (map (\<lambda>i. f (xs ! i) i) [start ..< min (start + n) (length xs)])"
    by (auto simp: slice_js_def min_def)
next
  fix i
  assume "i < length (map (\<lambda>(i, item). f item (i + start)) (enumerate 0 (slice_js start (start + n) xs)))"
  then have i: "i < n" "i < length xs - start" by (simp_all add: slice_js_def)
  then have j: "start + i < min (start + n) (length xs)" by simp
  then have "[start ..< min (start + n) (length xs)] ! i = start + i" by (rule nth_upt)
  with i j show "map (\<lambda>(i, item). f item (i + start)) (enumerate 0 (slice_js start (start + n) xs)) ! i
      = map (\<lambda>i. f (xs ! i) i) [start ..< min (start + n) (length xs)] ! i"
    by (simp add: slice_js_def nth_enumerate_eq add.commute)
qed

lemma arrayWillChange_slice:
  "arrayWillChange True array start removedCount addedCount
     = map (\<lambda>i. Removed (array ! i) (Some i)) [start ..< min (start + removedCount) (length array)]"
proof (cases "removedCount > 0")
  case True
  then show ?thesis
    using slice_indices [of "\<lambda>item i. Removed item (Some i)" start removedCount array]
    by (simp add: arrayWillChange_def)
next
  case False
  then show ?thesis by (simp add: arrayWillChange_def)
qed

lemma arrayDidChange_slice:
  "arrayDidChange array start removedCount addedCount
     = map (\<lambda>i. Added (array ! i) (Some i)) [start ..< min (start + addedCount) (length array)]"
proof (cases "addedCount > 0")
  case True
  then show ?thesis
    using slice_indices [of "\<lambda>item i. Added item (Some i)" start addedCount array]
    by (simp add: arrayDidChange_def)
next
  case False
  then show ?thesis by (simp add: arrayDidChange_def)
qed

text \<open>
  The first variant does what C2 states: on an array with its one observer, a mutation
  calls \<open>removed\<close> for each index of the old array from \<open>start\<close> to
  \<open>start + removeAmt\<close>, and after them \<open>added\<close> for each index of the new array from
  \<open>start\<close> to \<open>start\<close> plus the number of objects added.
\<close>

lemma array_replace_removed_then_added:
  assumes "filter (\<lambda>(a, t). a = r) (hooks w) = [h]"
  shows "fst (array_replace (arrayWillChange True) arrayDidChange r start removeAmt objects w)
     = map (\<lambda>i. Removed (contents w r ! i) (Some i))
         [start ..< min (start + removeAmt) (length (contents w r))]
     @ map (\<lambda>i. Added (splice start removeAmt objects (contents w r) ! i) (Some i))
         [start ..< min (start + length objects) (length (splice start removeAmt objects (contents w r)))]"
  using assms by (simp add: array_replace_def Let_def arrayWillChange_slice arrayDidChange_slice)

lemma array_replace_example:
  "(case arrayMemberObserver True five of
      Inl e \<Rightarrow> False
    | Inr (ev0, w1) \<Rightarrow>
        fst (array_replace (arrayWillChange True) arrayDidChange 0 2 2 [99] w1)
          = [Removed 12 (Some 2), Removed 13 (Some 3), Added 99 (Some 2)])"
  by (simp add: five_def obs_defs eval_nat_numeral)

text \<open>
  C2. The array observer of the second variant names its third and fourth parameters
  \<open>addedCount\<close> and \<open>removedCount\<close>, while the host passes the number removed and then
  the number added, and it slices to the count instead of to \<open>start\<close> plus the count.
  For the mutation of \<open>[10, 11, 12, 13, 14]\<close> that removes the two elements at index 2
  and inserts \<open>99\<close> there, the observer makes no call before and none after; the run of
  the function that the mutation causes calls \<open>added\<close> for all four elements of the
  new array and registers a second observer. So \<open>removed\<close> is called for neither
  removed element, and \<open>added\<close> not only for the inserted one. For the removal of the
  element at index 0, \<open>removed\<close> is not called either: \<open>added\<close> is called for the four
  elements left, and then by each of the two observers for the element now at index 0.
\<close>

theorem arrayMemberObserver2_mutation_misnotifies:
  "arrayWillChange2 [10, 11, 12, 13, 14 :: nat] 2 2 1 = []
   \<and> arrayDidChange2 [10, 11, 99, 14 :: nat] 2 2 1 = []
   \<and> (case arrayMemberObserver2 five of
        Inl e \<Rightarrow> False
      | Inr (ev0, w1) \<Rightarrow>
          (case array_replace2 0 2 2 [99] w1 of
             Inl e \<Rightarrow> False
           | Inr (ev1, w2) \<Rightarrow>
               ev1 = [Added 10 None, Added 11 None, Added 99 None, Added 14 None]
             \<and> contents w2 0 = [10, 11, 99, 14]
             \<and> hooks w1 = [(0, 0)]
             \<and> hooks w2 = [(0, 0), (0, 1)])
        \<and> (case array_replace2 0 0 1 [] w1 of
             Inl e \<Rightarrow> False
           | Inr (ev1, w2) \<Rightarrow>
               ev1 = [Added 11 None, Added 12 None, Added 13 None, Added 14 None,
                      Added 11 (Some 0), Added 11 (Some 0)]
             \<and> contents w2 0 = [11, 12, 13, 14]))"
  by (simp add: five_def obs_defs array_replace2_def eval_nat_numeral)

text \<open>
  \<open>removeArrayObserver\<close> called with no observer object removes no registration.
\<close>

lemma removeArrayObserver_no_target: "removeArrayObserver p None w = w"
  by (simp add: removeArrayObserver_def split_def)

text \<open>No reassignment of the dependent key removes a registration.\<close>

lemma set_dependent_keeps_hooks:
  "\<exists>hs. hooks (snd (set_dependent has_removed v w)) = hooks w @ hs"
  by (auto simp: set_dependent_def observeDependentArray_def Let_def removeArrayObserver_no_target
      addArrayObserver_def split: option.splits)

text \<open>
  On a reassignment to another array the first variant calls \<open>removed\<close> for each
  element of the former array and then \<open>added\<close> for each element of the new one, and
  registers an observer on the new array; the registrations it had stay.
\<close>

lemma set_dependent_removed_then_added:
  assumes "key_observed w" and "previousArray w = Some p" and "dependent w \<noteq> Some r"
  shows "fst (set_dependent True (Some r) w)
     = map (\<lambda>(i, item). Removed item (Some i)) (enumerate 0 (contents w p))
     @ map (\<lambda>member. Added member None) (contents w r)"
    and "hooks (snd (set_dependent True (Some r) w)) = hooks w @ [(r, next_hook w)]"
  using assms
  by (auto simp: set_dependent_def observeDependentArray_def Let_def removeArrayObserver_no_target
      addArrayObserver_def)

text \<open>
  C3. On a reassignment the previous array's observer is claimed to be deregistered
  before the new array's is registered, so that at most one array is watched. The code
  calls \<open>previousArray.removeArrayObserver()\<close> without the observer object it registered,
  and the host removes the registration of the object it is given. After the dependent
  key of the example owner is set from array 0 to array 1, \<open>removed\<close> has been called
  for the five former elements and then \<open>added\<close> for the two new ones, as claimed, but
  both arrays are watched, and appending \<open>77\<close> to array 0 still calls \<open>added\<close>.
\<close>

theorem observeDependentArray_leaves_previous_hook:
  "(case arrayMemberObserver True five of
      Inl e \<Rightarrow> False
    | Inr (ev0, w1) \<Rightarrow>
        (let (ev1, w2) = set_dependent True (Some 1) w1;
             (ev2, w3) = array_replace (arrayWillChange True) arrayDidChange 0 5 0 [77] w2
         in hooks w1 = [(0, 0)]
            \<and> ev1 = [Removed 10 (Some 0), Removed 11 (Some 1), Removed 12 (Some 2),
                    Removed 13 (Some 3), Removed 14 (Some 4), Added 20 None, Added 21 None]
            \<and> dependent w2 = Some 1
            \<and> hooks w2 = [(0, 0), (1, 1)]
            \<and> watched w2 = {0, 1}
            \<and> ev2 = [Added 77 (Some 5)]))"
  by (simp add: five_def obs_defs eval_nat_numeral)

text \<open>The calls, without the states they are made in, are the notifications.\<close>

lemma observeDependentArray_calls_events:
  "map fst (observeDependentArray_calls has_removed w) = fst (observeDependentArray has_removed w)"
  by (auto simp: observeDependentArray_calls_def observeDependentArray_def Let_def
      removeArrayObserver_no_target split_def comp_def split: option.splits)

text \<open>A mutation of an array that has no observer notifies nothing.\<close>

lemma array_replace_unwatched:
  assumes "r \<notin> watched w"
  shows "fst (array_replace willChange didChange r start removeAmt objects w) = []"
proof -
  have "filter (\<lambda>(a, t). a = r) (hooks w) = []"
    using assms by (force simp: watched_def filter_empty_conv)
  then show ?thesis by (simp add: array_replace_def Let_def)
qed

text \<open>
  C4, as the code has it. When the macro attaches, in the init hook of an owner whose
  dependent key holds an array, \<open>added\<close> is called once for each element, in index
  order, with the element as its only argument: no index is passed. These are all the
  calls of the hook, and each is made in a state in which the attach has registered no
  array observer yet (the registrations are those from before the init hook); the
  observer of the array is registered in the state the hook ends in. So the calls come
  before any notification of a mutation: in the first variant, if the array had no
  observer before, a mutation of it at the moment of any of these calls notifies
  nothing. Both variants make the same calls, before they register.
\<close>

theorem arrayMemberObserver_attach_added_in_order:
  assumes "dependent w = Some r" and "previousArray w = None"
  shows "arrayMemberObserver has_removed w =
           Inr (map (\<lambda>member. Added member None) (contents w r),
                w\<lparr>previousArray := Some r, hooks := hooks w @ [(r, next_hook w)],
                  next_hook := Suc (next_hook w), key_observed := True\<rparr>)
       \<and> arrayMemberObserver2 w =
           Inr (map (\<lambda>member. Added member None) (contents w r),
                w\<lparr>hooks := hooks w @ [(r, next_hook w)], next_hook := Suc (next_hook w)\<rparr>)
       \<and> arrayMemberObserver_calls has_removed w =
           Inr (map (\<lambda>member. (Added member None, w\<lparr>previousArray := Some r\<rparr>)) (contents w r))
       \<and> arrayMemberObserver2_calls w =
           Inr (map (\<lambda>member. (Added member None, w)) (contents w r))
       \<and> hooks (w\<lparr>previousArray := Some r\<rparr>) = hooks w
       \<and> (r \<notin> watched w \<longrightarrow>
            (\<forall>start removeAmt objects.
               fst (array_replace (arrayWillChange has_removed) arrayDidChange r start removeAmt objects
                      (w\<lparr>previousArray := Some r\<rparr>)) = []))"
proof -
  have 1: "arrayMemberObserver has_removed w =
           Inr (map (\<lambda>member. Added member None) (contents w r),
                w\<lparr>previousArray := Some r, hooks := hooks w @ [(r, next_hook w)],
                  next_hook := Suc (next_hook w), key_observed := True\<rparr>)"
    using assms
    by (simp add: arrayMemberObserver_def observeDependentArray_def addArrayObserver_def)
  have 2: "arrayMemberObserver2 w =
           Inr (map (\<lambda>member. Added member None) (contents w r),
                w\<lparr>hooks := hooks w @ [(r, next_hook w)], next_hook := Suc (next_hook w)\<rparr>)"
    using assms by (simp add: arrayMemberObserver2_def addArrayObserver_def)
  have 3: "arrayMemberObserver_calls has_removed w =
           Inr (map (\<lambda>member. (Added member None, w\<lparr>previousArray := Some r\<rparr>)) (contents w r))"
    using assms by (simp add: arrayMemberObserver_calls_def observeDependentArray_calls_def)
  have 4: "arrayMemberObserver2_calls w = Inr (map (\<lambda>member. (Added member None, w)) (contents w r))"
    using assms by (simp add: arrayMemberObserver2_calls_def)
  have 5: "hooks (w\<lparr>previousArray := Some r\<rparr>) = hooks w" by simp
  have 6: "fst (array_replace (arrayWillChange has_removed) arrayDidChange r start removeAmt objects
                  (w\<lparr>previousArray := Some r\<rparr>)) = []"
    if u: "r \<notin> watched w" for start removeAmt objects
  proof -
    from u have "r \<notin> watched (w\<lparr>previousArray := Some r\<rparr>)" by (simp add: watched_def)
    then show ?thesis by (rule array_replace_unwatched)
  qed
  have 7: "r \<notin> watched w \<longrightarrow>
            (\<forall>start removeAmt objects.
               fst (array_replace (arrayWillChange has_removed) arrayDidChange r start removeAmt objects
                      (w\<lparr>previousArray := Some r\<rparr>)) = [])"
    by (intro impI allI) (rule 6)
  from 1 2 3 4 5 7 show ?thesis by (intro conjI)
qed

text \<open>
  The theorem on the example owner: five calls of \<open>added\<close>, and at the moment of each
  the removal of two elements and insertion of \<open>99\<close> at index 2 notifies nothing
  (after the hook it does: \<open>array_replace_example\<close>).
\<close>

theorem arrayMemberObserver_attach_added_in_order_witness:
  "dependent five = Some 0 \<and> previousArray five = None \<and> 0 \<notin> watched five
   \<and> map_sum id fst (arrayMemberObserver True five)
       = Inr [Added 10 None, Added 11 None, Added 12 None, Added 13 None, Added 14 None]
   \<and> map_sum id fst (arrayMemberObserver2 five)
       = Inr [Added 10 None, Added 11 None, Added 12 None, Added 13 None, Added 14 None]
   \<and> map_sum id (map fst) (arrayMemberObserver_calls True five)
       = Inr [Added 10 None, Added 11 None, Added 12 None, Added 13 None, Added 14 None]
   \<and> map_sum id (map fst) (arrayMemberObserver2_calls five)
       = Inr [Added 10 None, Added 11 None, Added 12 None, Added 13 None, Added 14 None]
   \<and> fst (array_replace (arrayWillChange True) arrayDidChange 0 2 2 [99]
            (five\<lparr>previousArray := Some 0\<rparr>)) = []"
proof -
  have a: "dependent five = Some 0" and b: "previousArray five = None"
    by (simp_all add: five_def)
  have c: "contents five 0 = [10, 11, 12, 13, 14]" by (simp add: five_def)
  have u: "0 \<notin> watched five" by (simp add: five_def watched_def)
  note t = arrayMemberObserver_attach_added_in_order [OF a b, of True]
  from t a b c have e: "map_sum id fst (arrayMemberObserver True five)
       = Inr [Added 10 None, Added 11 None, Added 12 None, Added 13 None, Added 14 None]"
    "map_sum id fst (arrayMemberObserver2 five)
       = Inr [Added 10 None, Added 11 None, Added 12 None, Added 13 None, Added 14 None]"
    "map_sum id (map fst) (arrayMemberObserver_calls True five)
       = Inr [Added 10 None, Added 11 None, Added 12 None, Added 13 None, Added 14 None]"
    "map_sum id (map fst) (arrayMemberObserver2_calls five)
       = Inr [Added 10 None, Added 11 None, Added 12 None, Added 13 None, Added 14 None]"
    by (simp_all add: comp_def)
  from t u have m: "fst (array_replace (arrayWillChange True) arrayDidChange 0 2 2 [99]
            (five\<lparr>previousArray := Some 0\<rparr>)) = []"
    by blast
  from a b u e m show ?thesis by simp
qed

text \<open>
  C4 as stated, with \<open>added\<close> passed the element and its index, fails on the example
  owner.
\<close>

theorem arrayMemberObserver_attach_passes_no_index:
  "map_sum id fst (arrayMemberObserver True five)
     \<noteq> Inr [Added 10 (Some 0), Added 11 (Some 1), Added 12 (Some 2), Added 13 (Some 3),
            Added 14 (Some 4)]
   \<and> map_sum id fst (arrayMemberObserver2 five)
     \<noteq> Inr [Added 10 (Some 0), Added 11 (Some 1), Added 12 (Some 2), Added 13 (Some 3),
            Added 14 (Some 4)]"
  by (simp add: five_def obs_defs)

section \<open>Properties of nestedArrayObserver\<close>

lemmas nested_defs = nested_added_def nested_removed_def nested_added2_def nested_removed2_def
  no_nested_def

text \<open>
  The first variant does what C7 states: \<open>added\<close> registers the bound function on the
  inner array and calls it once.
\<close>

lemma nested_added_invokes_once:
  "nested_added this (Arr r) w =
     (None, w\<lparr>next_fn := Suc (next_fn w),
               observerCache := observerCache w @ [(this, Arr r, next_fn w)],
               item_observers := item_observers w @ [(r, this, next_fn w)],
               calls := calls w @ [(this, Arr r)]\<rparr>)"
  by (simp add: nested_added_def Let_def)

text \<open>Appending an element to a watched array notifies \<open>added\<close> of it once.\<close>

lemma push_inner_notifies:
  assumes "filter (\<lambda>(a, t). a = r) (hooks w) = [h]"
  shows "fst (array_replace (arrayWillChange True) arrayDidChange r (length (contents w r)) 0 [x] w)
           = [Added x (Some (length (contents w r)))]"
  using assms
  by (simp add: array_replace_def Let_def arrayWillChange_def arrayDidChange_def splice_def
      slice_js_def enumerate_eq_zip)

lemma nested_added_example:
  "(case arrayMemberObserver True outer of
      Inl e \<Rightarrow> False
    | Inr (ev0, w1) \<Rightarrow>
        (let (ev1, w2) = array_replace (arrayWillChange True) arrayDidChange 0 0 0 [Arr 1] w1;
             (err, n) = nested_dispatch nested_added nested_removed 7 ev1 no_nested
         in ev0 = [] \<and> ev1 = [Added (Arr 1) (Some 0)] \<and> contents w2 0 = [Arr 1]
            \<and> err = None \<and> item_observers n = [(1, 7, 0)] \<and> calls n = [(7, Arr 1)]))"
  by (simp add: outer_def obs_defs nested_defs)

text \<open>
  C7. The \<open>added\<close> callback of the second variant caches the bound function and
  registers it on the inner array, and ends there: the function is not called. For the
  inner array \<open>[1, 2]\<close> (array 1) added on owner 7, one observer is registered and no
  call is made.
\<close>

theorem nested_added2_never_invokes:
  "nested_added2 7 (Arr 1) no_nested
     = (None, \<lparr>observerCache = [(Arr 1, 0)], item_observers = [(1, 7, 0)], next_fn = 1, calls = []\<rparr>)
   \<and> calls (snd (nested_dispatch nested_added2 nested_removed2 7 [Added (Arr 1) (Some 0)] no_nested)) = []"
  by (simp add: nested_defs)

text \<open>
  The first variant does what C8 states: with no entry for the inner array and this
  owner in the cache, \<open>removed\<close> returns without an error and changes nothing.
\<close>

lemma nested_removed_miss:
  assumes "List.find (\<lambda>(parent, target, observer). target = nestedArray \<and> parent = this)
             (observerCache w) = None"
  shows "nested_removed this nestedArray w = (None, w)"
  using assms by (simp add: nested_removed_def)

lemma nested_removed2_miss:
  assumes "List.find (\<lambda>(target, observer). target = nestedArray) (observerCache w) = None"
  shows "nested_removed2 this nestedArray w = (Some TypeError, w)"
  using assms by (simp add: nested_removed2_def)

text \<open>
  C8. The \<open>removed\<close> callback of the second variant reads \<open>cached.observer\<close> without
  testing \<open>cached\<close>. For an inner array with no entry in the cache, here the empty
  cache, it raises a TypeError instead of returning; the cache and the observers are as
  they were.
\<close>

theorem nested_removed2_raises_on_miss:
  "nested_removed2 7 (Arr 1) no_nested = (Some TypeError, no_nested)
   \<and> nested_dispatch nested_added2 nested_removed2 7 [Removed (Arr 1) (Some 0)] no_nested
       = (Some TypeError, no_nested)
   \<and> nested_removed 7 (Arr 1) no_nested = (None, no_nested)"
  by (simp add: nested_defs)

end
